theory Spec2Isabelle
  imports Main "HOL-Library.Word" "HOL-Library.Char_ord" "HOL-Library.List_Lexorder"
    "HOL-Library.Sublist"
begin

unbundle bit_operations_syntax

section \<open>Bytes and the digest of the standard library\<close>

text \<open>
  The program hashes with \<^verbatim>\<open>crypto/sha1\<close> and renders with \<^verbatim>\<open>encoding/hex\<close>.
  Both belong to the Go standard library, not to the repository, so they are modelled
  here from their specification: SHA-1 as in FIPS 180-4 on 32-bit words, and the
  hexadecimal encoder with the table \<^verbatim>\<open>0123456789abcdef\<close>.
\<close>

type_synonym u8 = "8 word"
type_synonym u32 = "32 word"

definition bytes_of :: "string \<Rightarrow> u8 list" where
  "bytes_of s = map of_char s"

definition rotl32 :: "nat \<Rightarrow> u32 \<Rightarrow> u32" where
  "rotl32 n x = push_bit n x OR drop_bit (32 - n) x"

definition be32 :: "u8 list \<Rightarrow> u32" where
  "be32 bs = foldl (\<lambda>acc b. push_bit 8 acc OR ucast b) 0 bs"

fun chunks4 :: "u8 list \<Rightarrow> u32 list" where
  "chunks4 (a # b # c # d # rest) = be32 [a, b, c, d] # chunks4 rest"
| "chunks4 _ = []"

definition put_u64 :: "64 word \<Rightarrow> u8 list" where
  "put_u64 x = map (\<lambda>i. ucast (drop_bit (8 * i) x)) [7, 6, 5, 4, 3, 2, 1, 0]"

definition put_u32 :: "u32 \<Rightarrow> u8 list" where
  "put_u32 x = [ucast (drop_bit 24 x), ucast (drop_bit 16 x), ucast (drop_bit 8 x), ucast x]"

text \<open>Padding: the byte 0x80, zeros up to 56 modulo 64, then the bit length on 64 bits.\<close>

definition sha1_pad :: "u8 list \<Rightarrow> u8 list" where
  "sha1_pad m =
     (let len = length m;
          z = (if len mod 64 < 56 then 55 - len mod 64 else 119 - len mod 64)
      in m @ [0x80] @ replicate z 0 @ put_u64 (push_bit 3 (of_nat len)))"

text \<open>The message schedule: sixteen words of the block, extended to eighty.\<close>

fun schedule :: "nat \<Rightarrow> u32 list \<Rightarrow> u32 list" where
  "schedule 0 w = w"
| "schedule (Suc n) w =
     schedule n (w @ [rotl32 1 (w ! (length w - 3) XOR w ! (length w - 8)
                                XOR w ! (length w - 14) XOR w ! (length w - 16))])"

type_synonym sha1_state = "u32 \<times> u32 \<times> u32 \<times> u32 \<times> u32"

definition sha1_f :: "nat \<Rightarrow> u32 \<Rightarrow> u32 \<Rightarrow> u32 \<Rightarrow> u32" where
  "sha1_f t b c d =
     (if t < 20 then (b AND c) OR (NOT b AND d)
      else if t < 40 then b XOR c XOR d
      else if t < 60 then ((b OR c) AND d) OR (b AND c)
      else b XOR c XOR d)"

definition sha1_k :: "nat \<Rightarrow> u32" where
  "sha1_k t =
     (if t < 20 then 0x5A827999
      else if t < 40 then 0x6ED9EBA1
      else if t < 60 then 0x8F1BBCDC
      else 0xCA62C1D6)"

fun sha1_round :: "sha1_state \<Rightarrow> nat \<times> u32 \<Rightarrow> sha1_state" where
  "sha1_round (a, b, c, d, e) (t, w) =
     (rotl32 5 a + sha1_f t b c d + e + w + sha1_k t, a, rotl32 30 b, c, d)"

fun sha1_rounds :: "nat \<Rightarrow> u32 list \<Rightarrow> sha1_state \<Rightarrow> sha1_state" where
  "sha1_rounds t [] s = s"
| "sha1_rounds t (w # ws) s = sha1_rounds (t + 1) ws (sha1_round s (t, w))"

fun sha1_block :: "sha1_state \<Rightarrow> u8 list \<Rightarrow> sha1_state" where
  "sha1_block (h0, h1, h2, h3, h4) p =
     (case sha1_rounds 0 (schedule 64 (chunks4 p)) (h0, h1, h2, h3, h4) of
        (a, b, c, d, e) \<Rightarrow> (h0 + a, h1 + b, h2 + c, h3 + d, h4 + e))"

function sha1_blocks :: "sha1_state \<Rightarrow> u8 list \<Rightarrow> sha1_state" where
  "sha1_blocks h p =
     (if length p < 64 then h
      else sha1_blocks (sha1_block h (take 64 p)) (drop 64 p))"
  by pat_completeness auto
termination
  by (relation "measure (\<lambda>(h, p). length p)") auto

declare sha1_blocks.simps [simp del]

definition sha1_init :: sha1_state where
  "sha1_init = (0x67452301, 0xEFCDAB89, 0x98BADCFE, 0x10325476, 0xC3D2E1F0)"

definition sha1_Sum :: "u8 list \<Rightarrow> u8 list" where
  "sha1_Sum m =
     (case sha1_blocks sha1_init (sha1_pad m) of
        (h0, h1, h2, h3, h4) \<Rightarrow> concat (map put_u32 [h0, h1, h2, h3, h4]))"

definition hextable :: string where
  "hextable = ''0123456789abcdef''"

definition hex_EncodeToString :: "u8 list \<Rightarrow> string" where
  "hex_EncodeToString src =
     concat (map (\<lambda>v. [hextable ! unat (drop_bit 4 v), hextable ! unat (v AND 0x0f)]) src)"

definition lower_hex :: "char \<Rightarrow> bool" where
  "lower_hex c = (c \<in> set hextable)"

section \<open>Errors, paths and the file system\<close>

text \<open>
  Go's \<^verbatim>\<open>error\<close> values, as far as the program can meet them. \<open>PathError op path\<close>
  stands for any failure of the operating system on a path; \<open>SkipDir\<close> and \<open>SkipAll\<close>
  are the sentinels of \<^verbatim>\<open>path/filepath\<close>; the wrappers are the program's own
  \<^verbatim>\<open>fmt.Errorf\<close> calls.
\<close>

datatype error =
    PathError string string
  | RelError string string
  | SkipDir
  | SkipAll
  | NilEntry
  | ChecksumError string error
  | WalkError error
  | MarshalError error
  | WriteError error

subsection \<open>strings\<close>

text \<open>\<^verbatim>\<open>strings.Split\<close> with a separator of one byte, and \<^verbatim>\<open>strings.HasPrefix\<close>.\<close>

fun strings_Split :: "string \<Rightarrow> char \<Rightarrow> string list" where
  "strings_Split [] sep = [[]]"
| "strings_Split (c # cs) sep =
     (if c = sep then [] # strings_Split cs sep
      else (case strings_Split cs sep of
              [] \<Rightarrow> [[c]]
            | w # ws \<Rightarrow> (c # w) # ws))"

fun strings_Join :: "string list \<Rightarrow> char \<Rightarrow> string" where
  "strings_Join [] sep = []"
| "strings_Join [x] sep = x"
| "strings_Join (x # y # ys) sep = x @ sep # strings_Join (y # ys) sep"

fun strings_HasPrefix :: "string \<Rightarrow> string \<Rightarrow> bool" where
  "strings_HasPrefix s [] = True"
| "strings_HasPrefix [] (p # ps) = False"
| "strings_HasPrefix (c # cs) (p # ps) = (c = p \<and> strings_HasPrefix cs ps)"

subsection \<open>path/filepath on slash-separated paths\<close>

text \<open>
  \<^verbatim>\<open>filepath.Clean\<close>, \<^verbatim>\<open>Join\<close>, \<^verbatim>\<open>Abs\<close> and \<^verbatim>\<open>Rel\<close> are lexical functions of
  the standard library. They are modelled on the elements of a path: \<open>Clean\<close> drops empty
  and \<open>.\<close> elements, resolves \<open>..\<close> against the element before it, and drops \<open>..\<close>
  at the root; \<open>Rel\<close> cleans both paths, skips their common leading elements, and climbs
  with \<open>..\<close> out of what is left of the base.
\<close>

definition slash :: char where
  "slash = CHR ''/''"

definition rooted :: "string \<Rightarrow> bool" where
  "rooted p = (case p of [] \<Rightarrow> False | c # cs \<Rightarrow> c = slash)"

fun clean_elems :: "bool \<Rightarrow> string list \<Rightarrow> string list \<Rightarrow> string list" where
  "clean_elems r out [] = out"
| "clean_elems r out (e # es) =
     (if e = [] \<or> e = ''.'' then clean_elems r out es
      else if e = ''..'' then
        (if out \<noteq> [] \<and> last out \<noteq> ''..'' then clean_elems r (butlast out) es
         else if r then clean_elems r out es
         else clean_elems r (out @ [e]) es)
      else clean_elems r (out @ [e]) es)"

definition filepath_Clean :: "string \<Rightarrow> string" where
  "filepath_Clean p =
     (if p = [] then ''.''
      else let es = clean_elems (rooted p) [] (strings_Split p slash)
           in if rooted p then slash # strings_Join es slash
              else if es = [] then ''.''
              else strings_Join es slash)"

definition filepath_Join :: "string \<Rightarrow> string \<Rightarrow> string" where
  "filepath_Join a b =
     (if a = [] \<and> b = [] then []
      else if a = [] then filepath_Clean b
      else if b = [] then filepath_Clean a
      else filepath_Clean (a @ slash # b))"

definition filepath_Abs :: "string \<times> error option \<Rightarrow> string \<Rightarrow> string \<times> error option" where
  "filepath_Abs getwd p =
     (if rooted p then (filepath_Clean p, None)
      else (case getwd of
              (wd, Some err) \<Rightarrow> ([], Some err)
            | (wd, None) \<Rightarrow> (filepath_Join wd p, None)))"

definition path_elems :: "string \<Rightarrow> string list" where
  "path_elems p =
     (if p = [] then []
      else let es = strings_Split p slash
           in if last es = [] then butlast es else es)"

fun skip_common :: "string list \<Rightarrow> string list \<Rightarrow> string list \<times> string list" where
  "skip_common (b # bs) (t # ts) = (if b = t then skip_common bs ts else (b # bs, t # ts))"
| "skip_common bs ts = (bs, ts)"

definition filepath_Rel :: "string \<Rightarrow> string \<Rightarrow> string \<times> error option" where
  "filepath_Rel basepath targpath =
     (let base = filepath_Clean basepath; targ = filepath_Clean targpath
      in if targ = base then (''.'', None)
         else let base' = (if base = ''.'' then [] else base)
              in if rooted base' \<noteq> rooted targ then ([], Some (RelError targpath basepath))
                 else (case skip_common (path_elems base') (path_elems targ) of
                         (bs, ts) \<Rightarrow>
                           if bs \<noteq> [] \<and> ts \<noteq> [] \<and> hd bs = ''..''
                           then ([], Some (RelError targpath basepath))
                           else (strings_Join (replicate (length bs) ''..'' @ ts) slash, None)))"

subsection \<open>The tree below the root directory\<close>

text \<open>
  What the operating system holds at a path: a file that can be read, with its bytes; an
  entry that is not a directory and cannot be read; a directory with its entries, in the
  order of the disk; a directory whose listing returns an error after some entries.
\<close>

datatype node =
    File "u8 list"
  | NoRead
  | Dir "(string \<times> node) list"
  | BadDir "(string \<times> node) list"

fun IsDir :: "node \<Rightarrow> bool" where
  "IsDir (Dir es) = True"
| "IsDir (BadDir es) = True"
| "IsDir _ = False"

fun os_ReadFile :: "node \<Rightarrow> string \<Rightarrow> u8 list \<times> error option" where
  "os_ReadFile (File data) name = (data, None)"
| "os_ReadFile _ name = ([], Some (PathError ''read'' name))"

text \<open>\<^verbatim>\<open>os.ReadDir\<close> returns the entries sorted by file name (byte-wise).\<close>

fun os_ReadDir :: "node \<Rightarrow> string \<Rightarrow> (string \<times> node) list \<times> error option" where
  "os_ReadDir (Dir es) name = (sort_key fst es, None)"
| "os_ReadDir (BadDir es) name = (sort_key fst es, Some (PathError ''readdir'' name))"
| "os_ReadDir _ name = ([], Some (PathError ''readdir'' name))"

type_synonym filesystem = "string \<Rightarrow> node option"

definition os_Lstat :: "filesystem \<Rightarrow> string \<Rightarrow> node option \<times> error option" where
  "os_Lstat fs name =
     (case fs name of
        None \<Rightarrow> (None, Some (PathError ''lstat'' name))
      | Some d \<Rightarrow> (Some d, None))"

fun weight :: "node \<Rightarrow> nat" where
  "weight (File data) = 1"
| "weight NoRead = 1"
| "weight (Dir es) = Suc (sum_list (map (\<lambda>e. weight (snd e)) es))"
| "weight (BadDir es) = Suc (sum_list (map (\<lambda>e. weight (snd e)) es))"

lemma weight_insort:
  "sum_list (map (\<lambda>e. weight (snd e)) (insort_key fst x xs)) =
     weight (snd x) + sum_list (map (\<lambda>e. weight (snd e)) xs)"
  by (induction xs) simp_all

lemma weight_sort:
  "sum_list (map (\<lambda>e. weight (snd e)) (sort_key fst xs)) =
     sum_list (map (\<lambda>e. weight (snd e)) xs)"
  by (induction xs) (simp_all add: weight_insort)

lemma weight_pos: "0 < weight d"
  by (cases d) simp_all

lemma weight_ReadDir:
  "IsDir d \<Longrightarrow>
     Suc (2 * sum_list (map (\<lambda>e. weight (snd e)) (fst (os_ReadDir d name)))) < 2 * weight d"
  by (cases d) (simp_all add: weight_sort)

subsection \<open>filepath.WalkDir\<close>

text \<open>
  The callback receives the path, the entry (absent when the root cannot be examined) and
  the error of the walk, and threads the state of the closure.
\<close>

type_synonym 's WalkDirFunc =
  "string \<Rightarrow> node option \<Rightarrow> error option \<Rightarrow> 's \<Rightarrow> error option \<times> 's"

function walkDir :: "'s WalkDirFunc \<Rightarrow> string \<Rightarrow> node \<Rightarrow> 's \<Rightarrow> error option \<times> 's"
  and walkEntries ::
    "'s WalkDirFunc \<Rightarrow> string \<Rightarrow> (string \<times> node) list \<Rightarrow> 's \<Rightarrow> error option \<times> 's"
where
  "walkDir fn path d s =
     (case fn path (Some d) None s of
        (Some err, s1) \<Rightarrow>
          if err = SkipDir \<and> IsDir d then (None, s1) else (Some err, s1)
      | (None, s1) \<Rightarrow>
          if \<not> IsDir d then (None, s1)
          else (case os_ReadDir d path of
                  (dirs, Some err) \<Rightarrow>
                    (case fn path (Some d) (Some err) s1 of
                       (Some err2, s2) \<Rightarrow>
                         if err2 = SkipDir \<and> IsDir d then (None, s2) else (Some err2, s2)
                     | (None, s2) \<Rightarrow> walkEntries fn path (fst (os_ReadDir d path)) s2)
                | (dirs, None) \<Rightarrow> walkEntries fn path (fst (os_ReadDir d path)) s1))"
| "walkEntries fn path [] s = (None, s)"
| "walkEntries fn path (e # rest) s =
     (case walkDir fn (filepath_Join path (fst e)) (snd e) s of
        (Some err, s1) \<Rightarrow> if err = SkipDir then (None, s1) else (Some err, s1)
      | (None, s1) \<Rightarrow> walkEntries fn path rest s1)"
  by pat_completeness auto
termination
  by (relation "measure (\<lambda>x. case x of
          Inl (fn, path, d, s) \<Rightarrow> 2 * weight d
        | Inr (fn, path, es, s) \<Rightarrow> Suc (2 * sum_list (map (\<lambda>e. weight (snd e)) es)))")
     (auto simp: weight_pos weight_ReadDir)

declare walkDir.simps [simp del]

definition filepath_WalkDir ::
  "filesystem \<Rightarrow> string \<Rightarrow> 's WalkDirFunc \<Rightarrow> 's \<Rightarrow> error option \<times> 's" where
  "filepath_WalkDir fs root fn s =
     (case (case os_Lstat fs root of
              (info, Some err) \<Rightarrow> fn root None (Some err) s
            | (None, None) \<Rightarrow> fn root None (Some NilEntry) s
            | (Some d, None) \<Rightarrow> walkDir fn root d s) of
        (Some err, s1) \<Rightarrow> if err = SkipDir \<or> err = SkipAll then (None, s1) else (Some err, s1)
      | (None, s1) \<Rightarrow> (None, s1))"

section \<open>The program\<close>

record FileChecksum =
  Path :: string
  Checksum :: string

definition generateSHA1Checksum :: "node \<Rightarrow> string \<Rightarrow> string \<times> error option" where
  "generateSHA1Checksum d filePath =
     (case os_ReadFile d filePath of
        (data, Some err) \<Rightarrow> ([], Some err)
      | (data, None) \<Rightarrow> (hex_EncodeToString (sha1_Sum data), None))"

definition isIgnored :: "string \<Rightarrow> string list \<Rightarrow> string \<Rightarrow> bool \<times> error option" where
  "isIgnored path ignorePatterns rootDir =
     (case filepath_Rel rootDir path of
        (relativePath, Some err) \<Rightarrow> (False, Some err)
      | (relativePath, None) \<Rightarrow>
          (list_ex (\<lambda>pattern. strings_HasPrefix relativePath pattern) ignorePatterns, None))"

text \<open>The closure passed to \<^verbatim>\<open>WalkDir\<close>; its state is the slice \<^verbatim>\<open>checksums\<close>.\<close>

fun visit ::
  "string \<Rightarrow> string list \<Rightarrow> string \<Rightarrow> node option \<Rightarrow> error option \<Rightarrow>
     FileChecksum list \<Rightarrow> error option \<times> FileChecksum list" where
  "visit rootDir ignorePatterns path d (Some err) checksums = (Some err, checksums)"
| "visit rootDir ignorePatterns path None None checksums = (Some NilEntry, checksums)"
| "visit rootDir ignorePatterns path (Some d) None checksums =
     (case isIgnored path ignorePatterns rootDir of
        (ignored, Some err) \<Rightarrow> (Some err, checksums)
      | (ignored, None) \<Rightarrow>
          if ignored then (if IsDir d then (Some SkipDir, checksums) else (None, checksums))
          else if IsDir d then (None, checksums)
          else (case generateSHA1Checksum d path of
                  (checksum, Some err) \<Rightarrow> (Some (ChecksumError path err), checksums)
                | (checksum, None) \<Rightarrow>
                    (case filepath_Rel rootDir path of
                       (relativePath, Some err) \<Rightarrow> (Some err, checksums)
                     | (relativePath, None) \<Rightarrow>
                         (None, checksums @
                            [\<lparr>Path = relativePath, Checksum = checksum\<rparr>]))))"

definition calculateChecksums ::
  "filesystem \<Rightarrow> string \<Rightarrow> string list \<Rightarrow> FileChecksum list \<times> error option" where
  "calculateChecksums fs rootDir ignorePatterns =
     (case filepath_WalkDir fs rootDir (visit rootDir ignorePatterns) [] of
        (Some err, checksums) \<Rightarrow> ([], Some (WalkError err))
      | (None, checksums) \<Rightarrow> (checksums, None))"

subsection \<open>encoding/json for a slice of FileChecksum\<close>

text \<open>
  \<^verbatim>\<open>json.MarshalIndent\<close> with the empty prefix and an indentation of two spaces. A
  string is quoted as the encoder of the standard library does with HTML escaping on:
  the quote and the backslash get a backslash; the control bytes get their short escape or
  \<^verbatim>\<open>\u00XX\<close>; the bytes of \<open><\<close>, \<open>>\<close> and \<open>&\<close> get \<^verbatim>\<open>\u00XX\<close>; a byte that does not
  start a well-formed UTF-8 sequence becomes the escape of U+FFFD; U+2028 and U+2029 are escaped;
  everything else is copied. The slice \<^verbatim>\<open>checksums\<close> of the program is declared
  without a value and only grows by \<^verbatim>\<open>append\<close>: when it is empty it is the nil slice,
  which the encoder writes as \<^verbatim>\<open>null\<close>.
\<close>

definition byte :: "char \<Rightarrow> nat" where
  "byte c = of_char c"

definition cont :: "char \<Rightarrow> bool" where
  "cont c = (0x80 \<le> byte c \<and> byte c \<le> 0xBF)"

text \<open>The length of the well-formed UTF-8 sequence at the head of a string, 0 if none.\<close>

fun utf8_len :: "string \<Rightarrow> nat" where
  "utf8_len (a # b # c # d # rest) =
     (if 0xC2 \<le> byte a \<and> byte a \<le> 0xDF then (if cont b then 2 else 0)
      else if byte a = 0xE0 then (if 0xA0 \<le> byte b \<and> byte b \<le> 0xBF \<and> cont c then 3 else 0)
      else if byte a = 0xED then (if 0x80 \<le> byte b \<and> byte b \<le> 0x9F \<and> cont c then 3 else 0)
      else if 0xE1 \<le> byte a \<and> byte a \<le> 0xEF then (if cont b \<and> cont c then 3 else 0)
      else if byte a = 0xF0
        then (if 0x90 \<le> byte b \<and> byte b \<le> 0xBF \<and> cont c \<and> cont d then 4 else 0)
      else if byte a = 0xF4
        then (if 0x80 \<le> byte b \<and> byte b \<le> 0x8F \<and> cont c \<and> cont d then 4 else 0)
      else if 0xF1 \<le> byte a \<and> byte a \<le> 0xF3 then (if cont b \<and> cont c \<and> cont d then 4 else 0)
      else 0)"
| "utf8_len [a, b, c] =
     (if 0xC2 \<le> byte a \<and> byte a \<le> 0xDF then (if cont b then 2 else 0)
      else if byte a = 0xE0 then (if 0xA0 \<le> byte b \<and> byte b \<le> 0xBF \<and> cont c then 3 else 0)
      else if byte a = 0xED then (if 0x80 \<le> byte b \<and> byte b \<le> 0x9F \<and> cont c then 3 else 0)
      else if 0xE1 \<le> byte a \<and> byte a \<le> 0xEF then (if cont b \<and> cont c then 3 else 0)
      else 0)"
| "utf8_len [a, b] =
     (if 0xC2 \<le> byte a \<and> byte a \<le> 0xDF then (if cont b then 2 else 0) else 0)"
| "utf8_len _ = 0"

definition hex_digit :: "nat \<Rightarrow> char" where
  "hex_digit k = hextable ! (k mod 16)"

definition escape_ascii :: "char \<Rightarrow> string" where
  "escape_ascii c =
     (if c = CHR ''\"'' then [CHR 0x5C, CHR ''\"'']
      else if c = CHR 0x5C then [CHR 0x5C, CHR 0x5C]
      else if c = CHR 0x08 then [CHR 0x5C, CHR ''b'']
      else if c = CHR 0x0C then [CHR 0x5C, CHR ''f'']
      else if c = CHR 0x0A then [CHR 0x5C, CHR ''n'']
      else if c = CHR 0x0D then [CHR 0x5C, CHR ''r'']
      else if c = CHR 0x09 then [CHR 0x5C, CHR ''t'']
      else if byte c < 0x20 \<or> c = CHR ''<'' \<or> c = CHR ''>'' \<or> c = CHR ''&''
        then [CHR 0x5C, CHR ''u'', CHR ''0'', CHR ''0'',
              hex_digit (byte c div 16), hex_digit (byte c)]
      else [c])"

function escape :: "string \<Rightarrow> string" where
  "escape [] = []"
| "escape (c # cs) =
     (if byte c < 0x80 then escape_ascii c @ escape cs
      else if utf8_len (c # cs) = 0
        then [CHR 0x5C, CHR ''u'', CHR ''f'', CHR ''f'', CHR ''f'', CHR ''d''] @ escape cs
      else if take 3 (c # cs) = [CHR 0xE2, CHR 0x80, CHR 0xA8]
        then [CHR 0x5C, CHR ''u'', CHR ''2'', CHR ''0'', CHR ''2'', CHR ''8''] @ escape (drop 2 cs)
      else if take 3 (c # cs) = [CHR 0xE2, CHR 0x80, CHR 0xA9]
        then [CHR 0x5C, CHR ''u'', CHR ''2'', CHR ''0'', CHR ''2'', CHR ''9''] @ escape (drop 2 cs)
      else take (utf8_len (c # cs)) (c # cs) @ escape (drop (utf8_len (c # cs) - 1) cs))"
  by pat_completeness auto
termination
  by (relation "measure length") auto

definition quote :: "string \<Rightarrow> string" where
  "quote s = CHR ''\"'' # escape s @ [CHR ''\"'']"

definition marshal_entry :: "FileChecksum \<Rightarrow> string" where
  "marshal_entry e =
     ''  {'' @ [CHR 0x0A] @
     ''    \"path\": '' @ quote (Path e) @ '','' @ [CHR 0x0A] @
     ''    \"checksum\": '' @ quote (Checksum e) @ [CHR 0x0A] @
     ''  }''"

fun marshal_entries :: "FileChecksum list \<Rightarrow> string" where
  "marshal_entries [] = []"
| "marshal_entries [e] = marshal_entry e @ [CHR 0x0A]"
| "marshal_entries (e # f # es) = marshal_entry e @ '','' @ [CHR 0x0A] @ marshal_entries (f # es)"

definition json_MarshalIndent :: "FileChecksum list \<Rightarrow> string \<times> error option" where
  "json_MarshalIndent v =
     (if v = [] then (''null'', None)
      else (''['' @ [CHR 0x0A] @ marshal_entries v @ '']'', None))"

subsection \<open>saveToFile and main\<close>

text \<open>
  The world of a run: the working directory as \<^verbatim>\<open>os.Getwd\<close> reports it, the file
  system, and the outcome of \<^verbatim>\<open>os.WriteFile\<close> on a path. What a run does is the list
  of its effects: the lines it prints and the file it writes.
\<close>

record world =
  Getwd :: "string \<times> error option"
  Files :: filesystem
  WriteFails :: "string \<Rightarrow> error option"

datatype effect =
    Println string error
  | WriteFile string string

definition os_WriteFile :: "world \<Rightarrow> string \<Rightarrow> string \<Rightarrow> error option \<times> effect list" where
  "os_WriteFile w name data =
     (case WriteFails w name of
        Some err \<Rightarrow> (Some err, [])
      | None \<Rightarrow> (None, [WriteFile name data]))"

definition saveToFile :: "world \<Rightarrow> FileChecksum list \<Rightarrow> string \<Rightarrow> error option \<times> effect list" where
  "saveToFile w checksums outputFile =
     (case json_MarshalIndent checksums of
        (outputData, Some err) \<Rightarrow> (Some (MarshalError err), [])
      | (outputData, None) \<Rightarrow>
          (case os_WriteFile w outputFile outputData of
             (Some err, effs) \<Rightarrow> (Some (WriteError err), effs)
           | (None, effs) \<Rightarrow> (None, effs)))"

text \<open>The flags given on the command line, as pairs of name and value.\<close>

definition flag_String :: "(string \<times> string) list \<Rightarrow> string \<Rightarrow> string \<Rightarrow> string" where
  "flag_String args name dflt =
     (case map_of (rev args) name of None \<Rightarrow> dflt | Some v \<Rightarrow> v)"

definition main :: "world \<Rightarrow> (string \<times> string) list \<Rightarrow> effect list" where
  "main w args =
     (let rootDir = flag_String args ''dir'' ''.'';
          outputFile = flag_String args ''output'' ''checksums.json'';
          ignorePaths = flag_String args ''ignore'' [];
          ignorePatterns = (if ignorePaths \<noteq> [] then strings_Split ignorePaths CHR '','' else [])
      in case filepath_Abs (Getwd w) rootDir of
           (projectDir, Some err) \<Rightarrow> [Println ''Error generating project dir:'' err]
         | (projectDir, None) \<Rightarrow>
             (case calculateChecksums (Files w) projectDir ignorePatterns of
                (checksums, Some err) \<Rightarrow> [Println ''Error calculating checksums:'' err]
              | (checksums, None) \<Rightarrow>
                  (let checksumsFilePath = filepath_Join projectDir outputFile
                   in case saveToFile w checksums checksumsFilePath of
                        (Some err, effs) \<Rightarrow> effs @ [Println ''Error saving checksums:'' err]
                      | (None, effs) \<Rightarrow> effs)))"

section \<open>Notions of the specification\<close>

definition valid_name :: "string \<Rightarrow> bool" where
  "valid_name n = (n \<noteq> [] \<and> n \<noteq> ''.'' \<and> n \<noteq> ''..'' \<and> slash \<notin> set n)"

definition abs_path :: "string list \<Rightarrow> string" where
  "abs_path cs = slash # strings_Join cs slash"

definition rel_path :: "string list \<Rightarrow> string" where
  "rel_path ns = (if ns = [] then ''.'' else strings_Join ns slash)"

definition ignored :: "string list \<Rightarrow> string list \<Rightarrow> bool" where
  "ignored pats ns = list_ex (\<lambda>pattern. prefix pattern (rel_path ns)) pats"

fun wf_node :: "node \<Rightarrow> bool" where
  "wf_node (Dir es) = list_all (\<lambda>e. valid_name (fst e) \<and> wf_node (snd e)) es"
| "wf_node (BadDir es) = list_all (\<lambda>e. valid_name (fst e) \<and> wf_node (snd e)) es"
| "wf_node _ = True"

fun blocked :: "string list \<Rightarrow> string list \<Rightarrow> node \<Rightarrow> bool" where
  "blocked pats ns (File data) = False"
| "blocked pats ns NoRead = (\<not> ignored pats ns)"
| "blocked pats ns (BadDir es) = (\<not> ignored pats ns)"
| "blocked pats ns (Dir es) =
     (\<not> ignored pats ns \<and> list_ex (\<lambda>e. blocked pats (ns @ [fst e]) (snd e)) es)"

fun manifest_of :: "string list \<Rightarrow> string list \<Rightarrow> node \<Rightarrow> FileChecksum list" where
  "manifest_of pats ns (File data) =
     (if ignored pats ns then []
      else [\<lparr>Path = rel_path ns, Checksum = hex_EncodeToString (sha1_Sum data)\<rparr>])"
| "manifest_of pats ns (Dir es) =
     (if ignored pats ns then []
      else concat (map (\<lambda>e. manifest_of pats (ns @ [fst e]) (snd e)) (sort_key fst es)))"
| "manifest_of pats ns _ = []"

fun canon :: "node \<Rightarrow> node" where
  "canon (Dir es) = Dir (sort_key fst (map (\<lambda>e. (fst e, canon (snd e))) es))"
| "canon (BadDir es) = BadDir (sort_key fst (map (\<lambda>e. (fst e, canon (snd e))) es))"
| "canon d = d"

definition io_error :: "error \<Rightarrow> bool" where
  "io_error e =
     (case e of
        PathError op p \<Rightarrow> op = ''readdir''
      | ChecksumError p (PathError op q) \<Rightarrow> op = ''read'' \<and> q = p
      | _ \<Rightarrow> False)"

definition walk_spec ::
  "string list \<Rightarrow> string list \<Rightarrow> node \<Rightarrow> FileChecksum list \<Rightarrow>
     error option \<times> FileChecksum list \<Rightarrow> bool" where
  "walk_spec pats ns d s r =
     (if blocked pats ns d then (\<exists>e s'. r = (Some e, s') \<and> io_error e)
      else r = (None, s @ manifest_of pats ns d))"

section \<open>Facts about the digest\<close>

lemma sha1_blocks_short: "length p < 64 \<Longrightarrow> sha1_blocks h p = h"
  by (subst sha1_blocks.simps) simp

lemma sha1_blocks_long:
  "\<not> length p < 64 \<Longrightarrow>
     sha1_blocks h p = sha1_blocks (sha1_block h (take 64 p)) (drop 64 p)"
  by (subst sha1_blocks.simps) simp

lemma length_sha1_Sum: "length (sha1_Sum m) = 20"
  by (simp add: sha1_Sum_def put_u32_def split: prod.splits)

lemma length_hex_EncodeToString: "length (hex_EncodeToString bs) = 2 * length bs"
  by (induction bs) (simp_all add: hex_EncodeToString_def)

lemma hextable_nth_lower: "k < 16 \<Longrightarrow> lower_hex (hextable ! k)"
proof -
  assume "k < 16"
  then have "k < length hextable" by (simp add: hextable_def)
  then show ?thesis unfolding lower_hex_def by (rule nth_mem)
qed

lemma hi_nibble_bound: "unat (drop_bit 4 (v :: u8)) < 16"
proof -
  have "unat (drop_bit 4 v) = unat v div 2 ^ 4"
    by (simp add: drop_bit_eq_div unat_div)
  moreover have "unat v < 256"
    using unsigned_less [of v] by simp
  ultimately show ?thesis by simp
qed

lemma lo_nibble_bound: "unat ((v :: u8) AND 0x0f) < 16"
proof -
  have "v AND 15 \<le> 15"
    using word_and_le1 [of v 15] .
  then have "unat (v AND 15) \<le> 15"
    by (simp add: word_le_nat_alt)
  then show ?thesis by simp
qed

lemma hex_EncodeToString_lower: "list_all lower_hex (hex_EncodeToString bs)"
  by (induction bs)
     (simp_all add: hex_EncodeToString_def hextable_nth_lower hi_nibble_bound lo_nibble_bound)

subsection \<open>The digest of the five bytes of hello, step by step\<close>

definition hello_block :: "u8 list" where
  "hello_block =
     [104, 101, 108, 108, 111, 128, 0, 0, 0, 0, 0, 0, 0, 0, 0, 0, 0, 0, 0, 0, 0, 0, 0, 0,
      0, 0, 0, 0, 0, 0, 0, 0, 0, 0, 0, 0, 0, 0, 0, 0, 0, 0, 0, 0, 0, 0, 0, 0, 0, 0, 0, 0,
      0, 0, 0, 0, 0, 0, 0, 0, 0, 0, 0, 40]"

definition hello_schedule :: "u32 list" where
  "hello_schedule =
     [0x68656C6C, 0x6F800000, 0x00000000, 0x00000000, 0x00000000, 0x00000000, 0x00000000,
      0x00000000, 0x00000000, 0x00000000, 0x00000000, 0x00000000, 0x00000000, 0x00000000,
      0x00000000, 0x00000028, 0xD0CAD8D8, 0xDF000000, 0x00000050, 0xA195B1B1, 0xBE000001,
      0x000000A0, 0x432B6363, 0x7C000053, 0xA195B0F1, 0x3856C6C7, 0xF8000006, 0x00000280,
      0x0CAD8D8D, 0xF000011D, 0x27C37277, 0x5F5B1BED, 0x02BED2C9, 0xC2000A02, 0x32B63774,
      0x4656C2B1, 0x670DC9DA, 0x7D6C6D35, 0x0656C6A9, 0xF8002946, 0x4C8E1E16, 0xF80011D9,
      0x7C372772, 0xF5B1BE75, 0x68C64FF3, 0x5C00A16F, 0xAD35B0C5, 0x1B3AEEB4, 0x410CB588,
      0xA2C6D35F, 0x656C6ED0, 0x1F0F48F3, 0x56B727BF, 0x78011799, 0xF1C44113, 0x9B1BE328,
      0x136936EA, 0xBD667BC0, 0xD50DCAF3, 0x4BAEC207, 0x5C454692, 0xD46D2563, 0xACA70CB2,
      0xFD4530A2, 0xC6C991A3, 0x5811D9BD, 0x3727667C, 0xD4D2199D, 0x464FF307, 0x00A16F5C,
      0x35B0C5AD, 0x3AEEB69B, 0x001805CC, 0x36D34BAF, 0x0902B90D, 0x9613F66A, 0x00FDE511,
      0x41178720, 0x939B5DAD, 0x3E8F752B]"

lemma replicate_numeral_Cons: "replicate (numeral k) x = x # replicate (pred_numeral k) x"
  by (simp add: numeral_eq_Suc)

lemma schedule_numeral:
  "schedule (numeral k) w =
     schedule (pred_numeral k)
       (w @ [rotl32 1 (w ! (length w - 3) XOR w ! (length w - 8)
                       XOR w ! (length w - 14) XOR w ! (length w - 16))])"
  by (simp add: numeral_eq_Suc)

lemma sha1_rounds_append:
  "sha1_rounds t (xs @ ys) s = sha1_rounds (t + length xs) ys (sha1_rounds t xs s)"
  by (induction xs arbitrary: t s) simp_all

lemma hello_pad: "sha1_pad (bytes_of ''hello'') = hello_block"
  by (simp add: sha1_pad_def bytes_of_def put_u64_def hello_block_def replicate_numeral_Cons)

lemma hello_sched: "schedule 64 (chunks4 hello_block) = hello_schedule"
  by (simp add: hello_block_def hello_schedule_def be32_def schedule_numeral rotl32_def)

definition hello_w0 :: "u32 list" where
  "hello_w0 =
     [0x68656C6C, 0x6F800000, 0x00000000, 0x00000000, 0x00000000, 0x00000000, 0x00000000,
      0x00000000, 0x00000000, 0x00000000, 0x00000000, 0x00000000, 0x00000000, 0x00000000,
      0x00000000, 0x00000028, 0xD0CAD8D8, 0xDF000000, 0x00000050, 0xA195B1B1]"

definition hello_w1 :: "u32 list" where
  "hello_w1 =
     [0xBE000001, 0x000000A0, 0x432B6363, 0x7C000053, 0xA195B0F1, 0x3856C6C7, 0xF8000006,
      0x00000280, 0x0CAD8D8D, 0xF000011D, 0x27C37277, 0x5F5B1BED, 0x02BED2C9, 0xC2000A02,
      0x32B63774, 0x4656C2B1, 0x670DC9DA, 0x7D6C6D35, 0x0656C6A9, 0xF8002946]"

definition hello_w2 :: "u32 list" where
  "hello_w2 =
     [0x4C8E1E16, 0xF80011D9, 0x7C372772, 0xF5B1BE75, 0x68C64FF3, 0x5C00A16F, 0xAD35B0C5,
      0x1B3AEEB4, 0x410CB588, 0xA2C6D35F, 0x656C6ED0, 0x1F0F48F3, 0x56B727BF, 0x78011799,
      0xF1C44113, 0x9B1BE328, 0x136936EA, 0xBD667BC0, 0xD50DCAF3, 0x4BAEC207]"

definition hello_w3 :: "u32 list" where
  "hello_w3 =
     [0x5C454692, 0xD46D2563, 0xACA70CB2, 0xFD4530A2, 0xC6C991A3, 0x5811D9BD, 0x3727667C,
      0xD4D2199D, 0x464FF307, 0x00A16F5C, 0x35B0C5AD, 0x3AEEB69B, 0x001805CC, 0x36D34BAF,
      0x0902B90D, 0x9613F66A, 0x00FDE511, 0x41178720, 0x939B5DAD, 0x3E8F752B]"

lemma hello_schedule_parts: "hello_schedule = hello_w0 @ hello_w1 @ hello_w2 @ hello_w3"
  by (simp add: hello_schedule_def hello_w0_def hello_w1_def hello_w2_def hello_w3_def)

lemma hello_rounds0:
  "sha1_rounds 0 hello_w0
     sha1_init =
     (0xCB49F88C, 0xD58B6383, 0xE54A7E04, 0x69B67937, 0x0C04495A)"
  by (simp add: hello_w0_def sha1_init_def rotl32_def sha1_f_def sha1_k_def)

lemma hello_rounds1:
  "sha1_rounds 20 hello_w1
     (0xCB49F88C, 0xD58B6383, 0xE54A7E04, 0x69B67937, 0x0C04495A) =
     (0x595DDF9B, 0x1DBE11B0, 0x1442F8A9, 0x7D0AC08A, 0xE96070F5)"
  by (simp add: hello_w1_def rotl32_def sha1_f_def sha1_k_def)

lemma hello_rounds2:
  "sha1_rounds 40 hello_w2
     (0x595DDF9B, 0x1DBE11B0, 0x1442F8A9, 0x7D0AC08A, 0xE96070F5) =
     (0x1949578F, 0x61DEA4F6, 0xD5EF9EA2, 0x69C9E624, 0xD5EDC1C6)"
  by (simp add: hello_w2_def rotl32_def sha1_f_def sha1_k_def)

lemma hello_rounds3:
  "sha1_rounds 60 hello_w3
     (0x1949578F, 0x61DEA4F6, 0xD5EF9EA2, 0x69C9E624, 0xD5EDC1C6) =
     (0x43AFA31C, 0xECF83D19, 0x42040111, 0x2B15D863, 0xEAD6615D)"
  by (simp add: hello_w3_def rotl32_def sha1_f_def sha1_k_def)

lemma hello_rounds: "sha1_rounds 0 hello_schedule sha1_init = (0x43AFA31C, 0xECF83D19, 0x42040111, 0x2B15D863, 0xEAD6615D)"
proof -
  have len: "length hello_w0 = 20" "length hello_w1 = 20" "length hello_w2 = 20"
    by (simp_all add: hello_w0_def hello_w1_def hello_w2_def)
  show ?thesis
    by (simp add: hello_schedule_parts sha1_rounds_append len hello_rounds0 hello_rounds1
          hello_rounds2 hello_rounds3)
qed

lemma length_hello_block: "length hello_block = 64"
  by (simp add: hello_block_def)

lemma hello_blocks:
  "sha1_blocks sha1_init hello_block =
     (0xAAF4C61D, 0xDCC5E8A2, 0xDABEDE0F, 0x3B482CD9, 0xAEA9434D)"
proof -
  have "sha1_block sha1_init hello_block =
          (0xAAF4C61D, 0xDCC5E8A2, 0xDABEDE0F, 0x3B482CD9, 0xAEA9434D)"
    using hello_rounds by (simp add: sha1_init_def hello_sched)
  then show ?thesis
    by (simp add: sha1_blocks_long sha1_blocks_short length_hello_block)
qed

lemma hello_digest:
  "hex_EncodeToString (sha1_Sum (bytes_of ''hello'')) =
     ''aaf4c61ddcc5e8a2dabede0f3b482cd9aea9434d''"
  by (simp add: sha1_Sum_def hello_pad hello_blocks hex_EncodeToString_def put_u32_def
        hextable_def)

section \<open>Paths and the walk\<close>

lemma HasPrefix_prefix: "strings_HasPrefix s p = prefix p s"
  by (induction s p rule: strings_HasPrefix.induct) auto

lemma Split_nonempty: "strings_Split s sep \<noteq> []"
  by (induction s) (auto split: list.splits)

lemma Split_append: "strings_Split (a @ sep # b) sep = strings_Split a sep @ strings_Split b sep"
  by (induction a) (auto split: list.splits simp: Split_nonempty)

lemma Split_no_sep: "sep \<notin> set n \<Longrightarrow> strings_Split n sep = [n]"
  by (induction n) auto

lemma Split_Join:
  "list_all (\<lambda>n. sep \<notin> set n) cs \<Longrightarrow> cs \<noteq> [] \<Longrightarrow> strings_Split (strings_Join cs sep) sep = cs"
  by (induction cs sep rule: strings_Join.induct) (auto simp: Split_append Split_no_sep)

lemma clean_elems_valid:
  "list_all valid_name cs \<Longrightarrow> clean_elems r out cs = out @ cs"
  by (induction cs arbitrary: out) (auto simp: valid_name_def)


lemma valid_no_slash: "list_all valid_name cs \<Longrightarrow> list_all (\<lambda>n. slash \<notin> set n) cs"
  by (induction cs) (auto simp: valid_name_def)

lemma Split_abs_path:
  "list_all valid_name cs \<Longrightarrow>
     strings_Split (abs_path cs) slash = [] # (if cs = [] then [[]] else cs)"
  using Split_Join [of slash cs] by (simp add: abs_path_def valid_no_slash)

lemma rooted_abs_path: "rooted (abs_path cs)"
  by (simp add: rooted_def abs_path_def)

lemma Clean_abs_path: "list_all valid_name cs \<Longrightarrow> filepath_Clean (abs_path cs) = abs_path cs"
  by (cases "cs = []")
     (simp_all add: filepath_Clean_def rooted_abs_path Split_abs_path clean_elems_valid,
      simp_all add: abs_path_def)

lemma Join_abs_path:
  assumes "list_all valid_name cs" and "valid_name n"
  shows "filepath_Join (abs_path cs) n = abs_path (cs @ [n])"
proof -
  have n: "n \<noteq> []" "slash \<notin> set n"
    using assms(2) by (simp_all add: valid_name_def)
  have r: "rooted (abs_path cs @ slash # n)"
    by (simp add: rooted_def abs_path_def)
  have "strings_Split (abs_path cs @ slash # n) slash =
          [] # (if cs = [] then [[]] else cs) @ [n]"
    using assms(1) n by (simp add: Split_append Split_abs_path Split_no_sep)
  moreover have "clean_elems True [] (cs @ [n]) = cs @ [n]"
    using assms by (simp add: clean_elems_valid)
  moreover have "n \<noteq> ''.''" "n \<noteq> ''..''"
    using assms(2) by (simp_all add: valid_name_def)
  ultimately have
    "clean_elems True [] (strings_Split (abs_path cs @ slash # n) slash) = cs @ [n]"
    using n by simp
  then show ?thesis
    using n r by (simp add: filepath_Join_def filepath_Clean_def abs_path_def)
qed

lemma foldl_Join_abs_path:
  "list_all valid_name cs \<Longrightarrow> list_all valid_name ns \<Longrightarrow>
     foldl filepath_Join (abs_path cs) ns = abs_path (cs @ ns)"
  by (induction ns arbitrary: cs) (simp_all add: Join_abs_path)

lemma path_elems_abs_path:
  "list_all valid_name cs \<Longrightarrow> path_elems (abs_path cs) = [] # cs"
proof (cases "cs = []")
  case True
  then show ?thesis by (simp add: path_elems_def abs_path_def slash_def)
next
  case False
  assume v: "list_all valid_name cs"
  then have "last cs \<noteq> []"
    using False by (induction cs) (auto simp: valid_name_def)
  then show ?thesis
    using v False by (simp add: path_elems_def Split_abs_path) (simp add: abs_path_def)
qed

lemma skip_common_append: "skip_common cs (cs @ ns) = ([], ns)"
  by (induction cs) simp_all

lemma abs_path_append_neq:
  assumes "list_all valid_name cs" and "list_all valid_name ns" and "ns \<noteq> []"
  shows "abs_path (cs @ ns) \<noteq> abs_path cs"
proof
  assume "abs_path (cs @ ns) = abs_path cs"
  then have "path_elems (abs_path (cs @ ns)) = path_elems (abs_path cs)" by simp
  then show False
    using assms by (simp add: path_elems_abs_path)
qed

lemma Rel_abs_path:
  assumes "list_all valid_name cs" and "list_all valid_name ns"
  shows "filepath_Rel (abs_path cs) (abs_path (cs @ ns)) = (rel_path ns, None)"
proof (cases "ns = []")
  case True
  then show ?thesis by (simp add: filepath_Rel_def rel_path_def)
next
  case False
  have ne: "abs_path cs \<noteq> ''.''"
    by (simp add: abs_path_def slash_def)
  show ?thesis
    using assms False abs_path_append_neq [OF assms False] ne
    by (simp add: filepath_Rel_def Clean_abs_path rooted_abs_path path_elems_abs_path
          skip_common_append rel_path_def)
qed


lemma isIgnored_abs_path:
  assumes "list_all valid_name cs" and "list_all valid_name ns"
  shows "isIgnored (abs_path (cs @ ns)) pats (abs_path cs) = (ignored pats ns, None)"
  using Rel_abs_path [OF assms]
  by (simp add: isIgnored_def ignored_def HasPrefix_prefix [abs_def])

lemma walkDir_pruned:
  "isIgnored path pats root = (True, None) \<Longrightarrow>
     walkDir (visit root pats) path d s = (None, s)"
  by (subst walkDir.simps) simp

lemma walkDir_File:
  assumes "list_all valid_name cs" and "list_all valid_name ns"
  shows "walkDir (visit (abs_path cs) pats) (abs_path (cs @ ns)) (File data) s =
           (None, s @ manifest_of pats ns (File data))"
  using Rel_abs_path [OF assms] isIgnored_abs_path [OF assms, of pats]
  by (subst walkDir.simps) (simp add: generateSHA1Checksum_def)

lemma walkDir_NoRead:
  assumes "list_all valid_name cs" and "list_all valid_name ns"
  shows "walkDir (visit (abs_path cs) pats) (abs_path (cs @ ns)) NoRead s =
           (if ignored pats ns then (None, s)
            else (Some (ChecksumError (abs_path (cs @ ns))
                          (PathError ''read'' (abs_path (cs @ ns)))), s))"
  using isIgnored_abs_path [OF assms, of pats]
  by (subst walkDir.simps) (simp add: generateSHA1Checksum_def)

lemma walkDir_BadDir:
  assumes "list_all valid_name cs" and "list_all valid_name ns"
  shows "walkDir (visit (abs_path cs) pats) (abs_path (cs @ ns)) (BadDir es) s =
           (if ignored pats ns then (None, s)
            else (Some (PathError ''readdir'' (abs_path (cs @ ns))), s))"
  using isIgnored_abs_path [OF assms, of pats]
  by (subst walkDir.simps) simp

lemma walkDir_Dir:
  assumes "list_all valid_name cs" and "list_all valid_name ns"
  shows "walkDir (visit (abs_path cs) pats) (abs_path (cs @ ns)) (Dir es) s =
           (if ignored pats ns then (None, s)
            else walkEntries (visit (abs_path cs) pats) (abs_path (cs @ ns))
                   (sort_key fst es) s)"
  using isIgnored_abs_path [OF assms, of pats]
  by (subst walkDir.simps) simp

lemma io_error_not_skip: "io_error e \<Longrightarrow> e \<noteq> SkipDir"
  by (auto simp: io_error_def)

lemma walkEntries_spec:
  assumes cs: "list_all valid_name cs"
    and ih: "\<And>e ms t. e \<in> set es \<Longrightarrow> list_all valid_name ms \<Longrightarrow>
               walk_spec pats ms (snd e) t
                 (walkDir (visit (abs_path cs) pats) (abs_path (cs @ ms)) (snd e) t)"
    and ns: "list_all valid_name ns"
    and es: "list_all (\<lambda>e. valid_name (fst e)) es"
  shows "if list_ex (\<lambda>e. blocked pats (ns @ [fst e]) (snd e)) es
         then (\<exists>e s'. walkEntries (visit (abs_path cs) pats) (abs_path (cs @ ns)) es s =
                        (Some e, s') \<and> io_error e)
         else walkEntries (visit (abs_path cs) pats) (abs_path (cs @ ns)) es s =
                (None, s @ concat (map (\<lambda>e. manifest_of pats (ns @ [fst e]) (snd e)) es))"
  using ih es
proof (induction es arbitrary: s)
  case Nil
  then show ?case by simp
next
  case (Cons e rest)
  have v: "list_all valid_name (ns @ [fst e])"
    using ns Cons.prems(2) by simp
  have j: "filepath_Join (abs_path (cs @ ns)) (fst e) = abs_path (cs @ ns @ [fst e])"
    using Join_abs_path [of "cs @ ns" "fst e"] cs ns Cons.prems(2) by simp
  have here: "walk_spec pats (ns @ [fst e]) (snd e) s
               (walkDir (visit (abs_path cs) pats) (abs_path (cs @ ns @ [fst e])) (snd e) s)"
    using Cons.prems(1) [of e "ns @ [fst e]" s] v by simp
  have rest: "\<And>t. if list_ex (\<lambda>e. blocked pats (ns @ [fst e]) (snd e)) rest
         then (\<exists>e s'. walkEntries (visit (abs_path cs) pats) (abs_path (cs @ ns)) rest t =
                        (Some e, s') \<and> io_error e)
         else walkEntries (visit (abs_path cs) pats) (abs_path (cs @ ns)) rest t =
                (None, t @ concat (map (\<lambda>e. manifest_of pats (ns @ [fst e]) (snd e)) rest))"
    by (rule Cons.IH) (use Cons.prems in simp_all)
  show ?case
  proof (cases "blocked pats (ns @ [fst e]) (snd e)")
    case True
    then obtain err s' where
      "walkDir (visit (abs_path cs) pats) (abs_path (cs @ ns @ [fst e])) (snd e) s = (Some err, s')"
      and "io_error err"
      using here by (auto simp: walk_spec_def)
    then show ?thesis
      using True j by (auto simp: io_error_not_skip)
  next
    case False
    then have "walkDir (visit (abs_path cs) pats) (abs_path (cs @ ns @ [fst e])) (snd e) s =
                 (None, s @ manifest_of pats (ns @ [fst e]) (snd e))"
      using here by (simp add: walk_spec_def)
    then show ?thesis
      using False j rest [of "s @ manifest_of pats (ns @ [fst e]) (snd e)"]
      by (auto split: if_splits)
  qed
qed

lemma list_ex_sort_key: "list_ex P (sort_key f xs) = list_ex P xs"
  by (simp add: list_ex_iff)

lemma walkDir_spec:
  assumes cs: "list_all valid_name cs"
  shows "wf_node d \<Longrightarrow> list_all valid_name ns \<Longrightarrow>
           walk_spec pats ns d s
             (walkDir (visit (abs_path cs) pats) (abs_path (cs @ ns)) d s)"
proof (induction d arbitrary: ns s)
  case (File data)
  then show ?case by (simp add: walk_spec_def walkDir_File cs)
next
  case NoRead
  then show ?case by (simp add: walk_spec_def walkDir_NoRead cs io_error_def)
next
  case (BadDir es)
  then show ?case by (simp add: walk_spec_def walkDir_BadDir cs io_error_def)
next
  case (Dir es)
  show ?case
  proof (cases "ignored pats ns")
    case True
    then show ?thesis
      using Dir.prems by (simp add: walk_spec_def walkDir_Dir cs)
  next
    case False
    have names: "list_all (\<lambda>e. valid_name (fst e)) (sort_key fst es)"
      using Dir.prems(1) by (auto simp: list_all_iff)
    have ih: "\<And>e ms t. e \<in> set (sort_key fst es) \<Longrightarrow> list_all valid_name ms \<Longrightarrow>
               walk_spec pats ms (snd e) t
                 (walkDir (visit (abs_path cs) pats) (abs_path (cs @ ms)) (snd e) t)"
    proof -
      fix e ms t
      assume e: "e \<in> set (sort_key fst es)" and ms: "list_all valid_name ms"
      then have "e \<in> set es" by simp
      moreover have "snd e \<in> Basic_BNFs.snds e"
        by (cases e) simp
      moreover have "wf_node (snd e)"
        using Dir.prems(1) \<open>e \<in> set es\<close> by (auto simp: list_all_iff)
      ultimately show "walk_spec pats ms (snd e) t
                 (walkDir (visit (abs_path cs) pats) (abs_path (cs @ ms)) (snd e) t)"
        using Dir.IH [of e "snd e" ms t] ms by simp
    qed
    show ?thesis
      using walkEntries_spec [OF cs ih Dir.prems(2) names, where s = s] False Dir.prems
      by (simp add: walk_spec_def walkDir_Dir cs list_ex_sort_key split: if_splits)
  qed
qed

fun files_of :: "string list \<Rightarrow> node \<Rightarrow> (string \<times> u8 list) list" where
  "files_of ns (File data) = [(rel_path ns, data)]"
| "files_of ns (Dir es) = concat (map (\<lambda>e. files_of (ns @ [fst e]) (snd e)) es)"
| "files_of ns _ = []"

fun only_dirs :: "node \<Rightarrow> bool" where
  "only_dirs (Dir es) = list_all (\<lambda>e. only_dirs (snd e)) es"
| "only_dirs _ = False"

definition entry_of :: "string \<times> u8 list \<Rightarrow> FileChecksum" where
  "entry_of f = \<lparr>Path = fst f, Checksum = hex_EncodeToString (sha1_Sum (snd f))\<rparr>"

lemma io_error_not_skips: "io_error e \<Longrightarrow> e \<noteq> SkipDir \<and> e \<noteq> SkipAll"
  by (auto simp: io_error_def)

lemma calculateChecksums_spec:
  assumes "list_all valid_name cs" and "fs (abs_path cs) = Some d" and "wf_node d"
  shows "if blocked pats [] d
         then (\<exists>e. io_error e \<and>
                 calculateChecksums fs (abs_path cs) pats = ([], Some (WalkError e)))
         else calculateChecksums fs (abs_path cs) pats = (manifest_of pats [] d, None)"
proof -
  have "walk_spec pats [] d [] (walkDir (visit (abs_path cs) pats) (abs_path cs) d [])"
    using walkDir_spec [OF assms(1) assms(3), of "[]" pats "[]"] by simp
  then show ?thesis
    using assms(2)
    by (auto simp: walk_spec_def calculateChecksums_def filepath_WalkDir_def os_Lstat_def
          io_error_def)
qed


lemma manifest_of_files:
  "set (manifest_of pats ns d) \<subseteq> entry_of ` set (files_of ns d)"
proof (induction d arbitrary: ns)
  case (Dir es)
  have "\<And>e. e \<in> set es \<Longrightarrow>
          set (manifest_of pats (ns @ [fst e]) (snd e)) \<subseteq>
            entry_of ` set (files_of (ns @ [fst e]) (snd e))"
  proof -
    fix e :: "string \<times> node"
    assume "e \<in> set es"
    moreover have "snd e \<in> Basic_BNFs.snds e" by (cases e) simp
    ultimately show "set (manifest_of pats (ns @ [fst e]) (snd e)) \<subseteq>
            entry_of ` set (files_of (ns @ [fst e]) (snd e))"
      by (rule Dir.IH)
  qed
  then have sub: "\<And>e x. e \<in> set es \<Longrightarrow> x \<in> set (manifest_of pats (ns @ [fst e]) (snd e)) \<Longrightarrow>
          x \<in> entry_of ` set (files_of (ns @ [fst e]) (snd e))"
    by blast
  show ?case
  proof
    fix x
    assume "x \<in> set (manifest_of pats ns (Dir es))"
    then obtain e where e: "e \<in> set es" "x \<in> set (manifest_of pats (ns @ [fst e]) (snd e))"
      by (auto split: if_splits)
    then have "x \<in> entry_of ` set (files_of (ns @ [fst e]) (snd e))"
      by (rule sub)
    then show "x \<in> entry_of ` set (files_of ns (Dir es))"
      using e(1) by auto
  qed
qed (simp_all add: entry_of_def)

lemma only_dirs_quiet:
  "only_dirs d \<Longrightarrow> \<not> blocked pats ns d \<and> manifest_of pats ns d = []"
proof (induction d arbitrary: ns)
  case (Dir es)
  have "\<And>e. e \<in> set es \<Longrightarrow>
          \<not> blocked pats (ns @ [fst e]) (snd e) \<and> manifest_of pats (ns @ [fst e]) (snd e) = []"
  proof -
    fix e :: "string \<times> node"
    assume e: "e \<in> set es"
    moreover have "snd e \<in> Basic_BNFs.snds e" by (cases e) simp
    moreover have "only_dirs (snd e)"
      using Dir.prems e by (simp add: list_all_iff)
    ultimately show
      "\<not> blocked pats (ns @ [fst e]) (snd e) \<and> manifest_of pats (ns @ [fst e]) (snd e) = []"
      by (rule Dir.IH)
  qed
  then show ?case by (simp add: list_ex_iff)
qed simp_all

lemma insort_key_relabel:
  "insort_key fst (fst x, g (snd x)) (map (\<lambda>e. (fst e, g (snd e))) xs) =
     map (\<lambda>e. (fst e, g (snd e))) (insort_key fst x xs)"
  by (induction xs) simp_all

lemma sort_key_relabel:
  "sort_key fst (map (\<lambda>e. (fst e, g (snd e))) xs) = map (\<lambda>e. (fst e, g (snd e))) (sort_key fst xs)"
  by (induction xs) (simp_all add: insort_key_relabel)

lemma sort_key_twice: "sort_key f (sort_key f xs) = sort_key f xs"
  by (simp add: sort_key_id_if_sorted)

lemma IsDir_canon: "IsDir (canon d) = IsDir d"
  by (cases d) simp_all

lemma canon_leaf: "\<not> IsDir d \<Longrightarrow> canon d = d"
  by (cases d) simp_all

lemma visit_canon:
  "visit root pats path (Some (canon d)) err s = visit root pats path (Some d) err s"
  by (cases err; cases "IsDir d") (simp_all add: IsDir_canon canon_leaf)

lemma ReadDir_canon:
  "os_ReadDir (canon d) path =
     (map (\<lambda>e. (fst e, canon (snd e))) (fst (os_ReadDir d path)), snd (os_ReadDir d path))"
  by (cases d) (simp_all add: sort_key_twice sort_key_relabel)

lemma walkEntries_relabel:
  assumes "\<And>e p t. e \<in> set xs \<Longrightarrow> walkDir fn p (g (snd e)) t = walkDir fn p (snd e) t"
  shows "walkEntries fn path (map (\<lambda>e. (fst e, g (snd e))) xs) s = walkEntries fn path xs s"
  using assms by (induction xs arbitrary: s) (simp_all split: prod.splits option.splits)

lemma set_ReadDir: "e \<in> set (fst (os_ReadDir d path)) \<Longrightarrow> IsDir d \<and> (\<exists>es. (d = Dir es \<or> d = BadDir es) \<and> e \<in> set es)"
  by (cases d) simp_all

lemma walkDir_canon:
  "walkDir (visit root pats) path (canon d) s = walkDir (visit root pats) path d s"
proof (induction d arbitrary: path s)
  case (File data)
  then show ?case by simp
next
  case NoRead
  then show ?case by simp
next
  case (Dir es)
  have "\<And>e p t. e \<in> set (sort_key fst es) \<Longrightarrow>
          walkDir (visit root pats) p (canon (snd e)) t = walkDir (visit root pats) p (snd e) t"
  proof -
    fix e :: "string \<times> node" and p t
    assume "e \<in> set (sort_key fst es)"
    then have "e \<in> set es" by simp
    moreover have "snd e \<in> Basic_BNFs.snds e" by (cases e) simp
    ultimately show
      "walkDir (visit root pats) p (canon (snd e)) t = walkDir (visit root pats) p (snd e) t"
      by (rule Dir.IH)
  qed
  then have W: "\<And>t. walkEntries (visit root pats) path
                (map (\<lambda>e. (fst e, canon (snd e))) (sort_key fst es)) t =
              walkEntries (visit root pats) path (sort_key fst es) t"
    by (rule walkEntries_relabel)
  show ?case
    by (subst walkDir.simps, subst walkDir.simps)
       (simp add: visit_canon ReadDir_canon IsDir_canon W del: canon.simps visit.simps
          split: prod.split option.split)
next
  case (BadDir es)
  have "\<And>e p t. e \<in> set (sort_key fst es) \<Longrightarrow>
          walkDir (visit root pats) p (canon (snd e)) t = walkDir (visit root pats) p (snd e) t"
  proof -
    fix e :: "string \<times> node" and p t
    assume "e \<in> set (sort_key fst es)"
    then have "e \<in> set es" by simp
    moreover have "snd e \<in> Basic_BNFs.snds e" by (cases e) simp
    ultimately show
      "walkDir (visit root pats) p (canon (snd e)) t = walkDir (visit root pats) p (snd e) t"
      by (rule BadDir.IH)
  qed
  then have W: "\<And>t. walkEntries (visit root pats) path
                (map (\<lambda>e. (fst e, canon (snd e))) (sort_key fst es)) t =
              walkEntries (visit root pats) path (sort_key fst es) t"
    by (rule walkEntries_relabel)
  show ?case
    by (subst walkDir.simps, subst walkDir.simps)
       (simp add: visit_canon ReadDir_canon IsDir_canon W del: canon.simps visit.simps
          split: prod.split option.split)
qed

definition ignore_patterns :: "(string \<times> string) list \<Rightarrow> string list" where
  "ignore_patterns args =
     (if flag_String args ''ignore'' [] \<noteq> []
      then strings_Split (flag_String args ''ignore'' []) CHR '','' else [])"

definition build_tree :: "u8 list \<Rightarrow> u8 list \<Rightarrow> u8 list \<Rightarrow> node" where
  "build_tree a b c =
     Dir [(''src'', Dir [(''build.go'', File c)]),
          (''build2'', Dir [(''out.bin'', File b)]),
          (''build'', Dir [(''out.bin'', File a)])]"

definition at_proj :: "node \<Rightarrow> filesystem" where
  "at_proj d = (\<lambda>p. if p = ''/proj'' then Some d else None)"

lemma abs_path_proj: "abs_path [''proj''] = ''/proj''"
  by (simp add: abs_path_def slash_def)

lemma valid_proj: "list_all valid_name [''proj'']"
  by (simp add: valid_name_def slash_def)

lemma main_unfold:
  "main w args =
     (case filepath_Abs (Getwd w) (flag_String args ''dir'' ''.'') of
        (projectDir, Some err) \<Rightarrow> [Println ''Error generating project dir:'' err]
      | (projectDir, None) \<Rightarrow>
          (case calculateChecksums (Files w) projectDir (ignore_patterns args) of
             (checksums, Some err) \<Rightarrow> [Println ''Error calculating checksums:'' err]
           | (checksums, None) \<Rightarrow>
               (case saveToFile w checksums
                       (filepath_Join projectDir (flag_String args ''output'' ''checksums.json'')) of
                  (Some err, effs) \<Rightarrow> effs @ [Println ''Error saving checksums:'' err]
                | (None, effs) \<Rightarrow> effs)))"
  unfolding main_def ignore_patterns_def Let_def by (rule refl)

lemma build_example:
  "calculateChecksums (at_proj (build_tree a b c)) ''/proj'' [''build''] =
     ([\<lparr>Path = ''src/build.go'', Checksum = hex_EncodeToString (sha1_Sum c)\<rparr>], None)"
proof -
  have wf: "wf_node (build_tree a b c)"
    by (simp add: build_tree_def valid_name_def slash_def)
  have nb: "\<not> blocked [''build''] [] (build_tree a b c)"
    by (simp add: build_tree_def)
  have m: "manifest_of [''build''] [] (build_tree a b c) =
             [\<lparr>Path = ''src/build.go'', Checksum = hex_EncodeToString (sha1_Sum c)\<rparr>]"
    by (simp add: build_tree_def ignored_def rel_path_def slash_def)
  show ?thesis
    using calculateChecksums_spec [OF valid_proj, of "at_proj (build_tree a b c)"
        "build_tree a b c" "[''build'']"] wf nb m
    by (simp add: abs_path_proj at_proj_def)
qed

theorem C2_ignored_iff_prefix:
  assumes "list_all valid_name cs" and "list_all valid_name ns"
  shows "isIgnored (foldl filepath_Join (abs_path cs) ns) pats (abs_path cs) =
           (list_ex (\<lambda>pattern. prefix pattern (rel_path ns)) pats, None)
         \<and> calculateChecksums (at_proj (build_tree a b c)) ''/proj'' [''build''] =
             ([\<lparr>Path = ''src/build.go'', Checksum = hex_EncodeToString (sha1_Sum c)\<rparr>], None)"
  using assms isIgnored_abs_path [OF assms, of pats]
  by (simp add: foldl_Join_abs_path ignored_def build_example)

theorem C2_witness:
  "list_all valid_name [''proj''] \<and> list_all valid_name [''build2'', ''out.bin'']
   \<and> isIgnored (foldl filepath_Join (abs_path [''proj'']) [''build2'', ''out.bin''])
         [''build''] (abs_path [''proj'']) = (True, None)"
  using C2_ignored_iff_prefix [of "[''proj'']" "[''build2'', ''out.bin'']" "[''build'']"]
  by (simp add: valid_name_def slash_def rel_path_def)

definition pruned_dir :: node where
  "pruned_dir = Dir [(''x'', NoRead), (''y'', BadDir []), (''z'', File [])]"

lemma Join_proj: "valid_name n \<Longrightarrow> filepath_Join ''/proj'' n = abs_path [''proj'', n]"
  using Join_abs_path [OF valid_proj, of n] by (simp add: abs_path_proj)

theorem C3_ignored_entries_pruned:
  assumes "isIgnored (filepath_Join parent (fst e)) pats rootDir = (True, None)"
  shows "walkDir (visit rootDir pats) (filepath_Join parent (fst e)) (snd e) s = (None, s)
         \<and> walkEntries (visit rootDir pats) parent (e # rest) s =
             walkEntries (visit rootDir pats) parent rest s"
  using walkDir_pruned [OF assms] by simp

theorem C3_witness:
  "isIgnored (filepath_Join ''/proj'' (fst (''build'', pruned_dir))) [''build''] ''/proj'' =
     (True, None)
   \<and> walkDir (visit ''/proj'' [''build'']) (filepath_Join ''/proj'' (fst (''build'', pruned_dir)))
         (snd (''build'', pruned_dir)) [] = (None, [])
   \<and> walkEntries (visit ''/proj'' [''build'']) ''/proj'' [(''build'', pruned_dir)] [] = (None, [])"
proof -
  have v: "valid_name ''build''"
    by (simp add: valid_name_def slash_def)
  have "isIgnored (abs_path ([''proj''] @ [''build''])) [''build''] (abs_path [''proj'']) =
          (ignored [''build''] [''build''], None)"
    by (rule isIgnored_abs_path) (simp_all add: valid_name_def slash_def)
  then have h: "isIgnored (filepath_Join ''/proj'' (fst (''build'', pruned_dir))) [''build'']
                  ''/proj'' = (True, None)"
    by (simp add: Join_proj v abs_path_proj ignored_def rel_path_def)
  show ?thesis
    using h C3_ignored_entries_pruned [OF h, of "[]" "[]"] by simp
qed


lemma Abs_proj: "filepath_Abs getwd ''/proj'' = (abs_path [''proj''], None)"
  using Clean_abs_path [OF valid_proj]
  by (simp add: filepath_Abs_def abs_path_proj rooted_def slash_def)



theorem C5_only_files_listed:
  assumes "list_all valid_name cs" and "fs (abs_path cs) = Some d" and "wf_node d"
  shows "set (fst (calculateChecksums fs (abs_path cs) pats)) \<subseteq> entry_of ` set (files_of [] d)
         \<and> (only_dirs d \<longrightarrow> calculateChecksums fs (abs_path cs) pats = ([], None))"
proof (cases "blocked pats [] d")
  case True
  then show ?thesis
    using calculateChecksums_spec [of cs fs d pats] assms only_dirs_quiet [of d pats "[]"]
    by auto
next
  case False
  then show ?thesis
    using calculateChecksums_spec [of cs fs d pats] assms only_dirs_quiet [of d pats "[]"]
      manifest_of_files [of pats "[]" d]
    by auto
qed

definition empty_dirs :: node where
  "empty_dirs = Dir [(''b'', Dir [(''c'', Dir [])]), (''a'', Dir [])]"

theorem C5_witness:
  "list_all valid_name [''proj''] \<and> at_proj empty_dirs (abs_path [''proj'']) = Some empty_dirs
   \<and> wf_node empty_dirs \<and> only_dirs empty_dirs
   \<and> calculateChecksums (at_proj empty_dirs) (abs_path [''proj'']) [] = ([], None)"
proof -
  have f: "at_proj empty_dirs (abs_path [''proj'']) = Some empty_dirs"
    by (simp add: at_proj_def abs_path_proj)
  have w: "wf_node empty_dirs"
    by (simp add: empty_dirs_def valid_name_def slash_def)
  have o: "only_dirs empty_dirs"
    by (simp add: empty_dirs_def)
  show ?thesis
    using C5_only_files_listed [of "[''proj'']" "at_proj empty_dirs" empty_dirs "[]"]
      valid_proj f w o
    by simp
qed



definition quiet_world :: world where
  "quiet_world =
     \<lparr>Getwd = (''/home'', None), Files = at_proj empty_dirs, WriteFails = (\<lambda>name. None)\<rparr>"

theorem C8_output_path:
  assumes "filepath_Abs (Getwd w) (flag_String args ''dir'' ''.'') = (projectDir, None)"
    and "calculateChecksums (Files w) projectDir (ignore_patterns args) = (checksums, None)"
    and "WriteFails w (filepath_Join projectDir (flag_String args ''output'' ''checksums.json'')) =
           None"
  shows "main w args =
           [WriteFile (filepath_Join projectDir (flag_String args ''output'' ''checksums.json''))
              (fst (json_MarshalIndent checksums))]
         \<and> (map_of (rev args) ''output'' = None \<longrightarrow>
              main w args =
                [WriteFile (filepath_Join projectDir ''checksums.json'')
                   (fst (json_MarshalIndent checksums))])"
  using assms
  by (auto simp: main_unfold saveToFile_def os_WriteFile_def json_MarshalIndent_def
        flag_String_def)

lemma Join_proj_checksums: "filepath_Join (abs_path [''proj'']) ''checksums.json'' = ''/proj/checksums.json''"
  using Join_abs_path [OF valid_proj, of "''checksums.json''"]
  by (simp add: valid_name_def slash_def abs_path_def)

theorem C8_witness:
  "main quiet_world [(''dir'', ''/proj'')] = [WriteFile ''/proj/checksums.json'' ''null'']"
proof -
  have a: "filepath_Abs (Getwd quiet_world) (flag_String [(''dir'', ''/proj'')] ''dir'' ''.'') =
             (abs_path [''proj''], None)"
    by (simp add: flag_String_def Abs_proj)
  have w: "wf_node empty_dirs"
    by (simp add: empty_dirs_def valid_name_def slash_def)
  have "calculateChecksums (at_proj empty_dirs) (abs_path [''proj'']) [] = ([], None)"
    using calculateChecksums_spec [of "[''proj'']" "at_proj empty_dirs" empty_dirs "[]"]
      valid_proj w only_dirs_quiet [of empty_dirs "[]" "[]"]
    by (simp add: at_proj_def abs_path_proj empty_dirs_def)
  then have c: "calculateChecksums (Files quiet_world) (abs_path [''proj''])
                  (ignore_patterns [(''dir'', ''/proj'')]) = ([], None)"
    by (simp add: quiet_world_def ignore_patterns_def flag_String_def)
  have f: "WriteFails quiet_world (filepath_Join (abs_path [''proj''])
             (flag_String [(''dir'', ''/proj'')] ''output'' ''checksums.json'')) = None"
    by (simp add: quiet_world_def)
  show ?thesis
    using C8_output_path [OF a c f]
    by (simp add: flag_String_def Join_proj_checksums json_MarshalIndent_def)
qed

lemma Split_leading: "[] \<in> set (strings_Split (sep # t) sep)"
  by simp








theorem C10_traversal_order:
  assumes "list_all valid_name cs" and "fs1 (abs_path cs) = Some d1" and "wf_node d1"
    and "fs2 (abs_path cs) = Some d2" and "canon d1 = canon d2"
  shows "calculateChecksums fs1 (abs_path cs) pats = calculateChecksums fs2 (abs_path cs) pats
         \<and> (\<not> blocked pats [] d1 \<longrightarrow>
              calculateChecksums fs1 (abs_path cs) pats = (manifest_of pats [] d1, None))
         \<and> sorted (map fst (fst (os_ReadDir d1 p)))"
proof -
  have "walkDir (visit (abs_path cs) pats) (abs_path cs) d1 [] =
          walkDir (visit (abs_path cs) pats) (abs_path cs) d2 []"
    using walkDir_canon [of "abs_path cs" pats "abs_path cs" d1 "[]"]
      walkDir_canon [of "abs_path cs" pats "abs_path cs" d2 "[]"] assms(5)
    by simp
  then have same: "calculateChecksums fs1 (abs_path cs) pats =
                     calculateChecksums fs2 (abs_path cs) pats"
    using assms(2,4) by (simp add: calculateChecksums_def filepath_WalkDir_def os_Lstat_def)
  have srt: "sorted (map fst (fst (os_ReadDir d1 p)))"
    by (cases d1) simp_all
  have mid: "\<not> blocked pats [] d1 \<longrightarrow>
               calculateChecksums fs1 (abs_path cs) pats = (manifest_of pats [] d1, None)"
    using calculateChecksums_spec [of cs fs1 d1 pats] assms(1,2,3) by simp
  show ?thesis
    using same srt mid by blast
qed

definition disk_one :: node where
  "disk_one = Dir [(''b'', Dir [(''d'', File []), (''c'', File [])]), (''a'', File [])]"

definition disk_two :: node where
  "disk_two = Dir [(''a'', File []), (''b'', Dir [(''c'', File []), (''d'', File [])])]"

theorem C10_witness:
  "list_all valid_name [''proj''] \<and> wf_node disk_one \<and> canon disk_one = canon disk_two
   \<and> \<not> blocked [] [] disk_one
   \<and> calculateChecksums (at_proj disk_one) (abs_path [''proj'']) [] =
       calculateChecksums (at_proj disk_two) (abs_path [''proj'']) []
   \<and> map Path (fst (calculateChecksums (at_proj disk_one) (abs_path [''proj'']) [])) =
       [''a'', ''b/c'', ''b/d'']"
proof -
  have w: "wf_node disk_one"
    by (simp add: disk_one_def valid_name_def slash_def)
  have c: "canon disk_one = canon disk_two"
    by (simp add: disk_one_def disk_two_def)
  have b: "\<not> blocked [] [] disk_one"
    by (simp add: disk_one_def)
  have f1: "at_proj disk_one (abs_path [''proj'']) = Some disk_one"
    and f2: "at_proj disk_two (abs_path [''proj'']) = Some disk_two"
    by (simp_all add: at_proj_def abs_path_proj)
  have m: "map Path (manifest_of [] [] disk_one) = [''a'', ''b/c'', ''b/d'']"
    by (simp add: disk_one_def ignored_def rel_path_def slash_def)
  have t: "calculateChecksums (at_proj disk_one) (abs_path [''proj'']) [] =
             calculateChecksums (at_proj disk_two) (abs_path [''proj'']) []
           \<and> (\<not> blocked [] [] disk_one \<longrightarrow>
                calculateChecksums (at_proj disk_one) (abs_path [''proj'']) [] =
                  (manifest_of [] [] disk_one, None))
           \<and> sorted (map fst (fst (os_ReadDir disk_one [])))"
    using C10_traversal_order [of "[''proj'']" "at_proj disk_one" disk_one "at_proj disk_two"
        disk_two "[]" "[]"] valid_proj w c f1 f2
    by blast
  then have "calculateChecksums (at_proj disk_one) (abs_path [''proj'']) [] =
               (manifest_of [] [] disk_one, None)"
    using b by blast
  then have "map Path (fst (calculateChecksums (at_proj disk_one) (abs_path [''proj'']) [])) =
               [''a'', ''b/c'', ''b/d'']"
    using m by simp
  then show ?thesis
    using t valid_proj w c b by blast
qed

text \<open>
  C1. A regular file that can be read is given the SHA-1 digest of its whole content,
  written as 40 lowercase hexadecimal characters; the file holding the five bytes of
  hello gets aaf4c61ddcc5e8a2dabede0f3b482cd9aea9434d.
\<close>

theorem C1_checksum_is_sha1_hex:
  "generateSHA1Checksum (File data) filePath = (hex_EncodeToString (sha1_Sum data), None)
   \<and> length (hex_EncodeToString (sha1_Sum data)) = 40
   \<and> list_all lower_hex (hex_EncodeToString (sha1_Sum data))
   \<and> generateSHA1Checksum (File (bytes_of ''hello'')) filePath =
         (''aaf4c61ddcc5e8a2dabede0f3b482cd9aea9434d'', None)"
  by (simp add: generateSHA1Checksum_def length_hex_EncodeToString length_sha1_Sum
        hex_EncodeToString_lower hello_digest)

end
